theory Spec2Isabelle
  imports Complex_Main
begin

section \<open>Data model\<close>

text \<open>
  The source is \<^verbatim>\<open>src/components/DiagramWrapper.tsx\<close> (the current component, called
  variant A below), an earlier revision of the same component (variant B) and
  \<^verbatim>\<open>initGoJs.ts\<close>. The diagramming library itself is not part of the repository;
  the few library operations the repository's code calls are modelled by what they are
  documented to do, and the view transform is taken as a parameter.

  Numbers: record keys are JavaScript numbers that hold integers. They are modelled as
  \<open>int\<close>; on integers of magnitude below \<open>2 ^ 53\<close> the operators \<^verbatim>\<open>k++\<close> and
  \<^verbatim>\<open>k--\<close> are exact, and the bounds \<open>makeUniqueKey_loop_le\<close> and
  \<open>makeUniqueLinkKey_loop_ge\<close> below show how far a search can move from where it starts.
\<close>

datatype Point = Point (point_x: real) (point_y: real)

text \<open>
  \<^verbatim>\<open>go.ObjectData\<close>: a plain object. A property that is \<^verbatim>\<open>undefined\<close> is \<open>None\<close>.
  Node data and link data are both objects of this type.
\<close>

record ObjectData =
  key :: "int option"
  location :: "Point option"
  "text" :: "string option"
  category :: "string option"

text \<open>\<^verbatim>\<open>go.GraphLinksModel\<close>: the two data arrays.\<close>

record GraphLinksModel =
  nodeDataArray :: "ObjectData list"
  linkDataArray :: "ObjectData list"

text \<open>
  Library lookups \<^verbatim>\<open>Model.findNodeDataForKey\<close> and
  \<^verbatim>\<open>GraphLinksModel.findLinkDataForKey\<close>: the data object that has the given key,
  or \<^verbatim>\<open>null\<close> (\<open>None\<close>).
\<close>

definition findNodeDataForKey :: "GraphLinksModel \<Rightarrow> int \<Rightarrow> ObjectData option" where
  "findNodeDataForKey m k = List.find (\<lambda>d. key d = Some k) (nodeDataArray m)"

definition findLinkDataForKey :: "GraphLinksModel \<Rightarrow> int \<Rightarrow> ObjectData option" where
  "findLinkDataForKey m k = List.find (\<lambda>d. key d = Some k) (linkDataArray m)"

section \<open>Key allocation\<close>

text \<open>
  \<^verbatim>\<open>data.key || 1\<close>: the key when it is truthy, the default otherwise. A key is falsy
  when it is \<^verbatim>\<open>undefined\<close> or \<open>0\<close>.
\<close>

definition key_or :: "int option \<Rightarrow> int \<Rightarrow> int" where
  "key_or v dflt = (case v of None \<Rightarrow> dflt | Some j \<Rightarrow> if j = 0 then dflt else j)"

text \<open>\<^verbatim>\<open>while (m.findNodeDataForKey(k)) k++;\<close>\<close>

function makeUniqueKey_loop :: "GraphLinksModel \<Rightarrow> int \<Rightarrow> int" where
  "makeUniqueKey_loop m k =
     (if findNodeDataForKey m k \<noteq> None then makeUniqueKey_loop m (k + 1) else k)"
  by pat_completeness auto

text \<open>The data objects of an array whose key is at least \<open>k\<close>, and at most \<open>k\<close>.\<close>

definition keys_from :: "ObjectData list \<Rightarrow> int \<Rightarrow> ObjectData list" where
  "keys_from ds k = filter (\<lambda>d. case key d of None \<Rightarrow> False | Some j \<Rightarrow> k \<le> j) ds"

definition keys_upto :: "ObjectData list \<Rightarrow> int \<Rightarrow> ObjectData list" where
  "keys_upto ds k = filter (\<lambda>d. case key d of None \<Rightarrow> False | Some j \<Rightarrow> j \<le> k) ds"

termination makeUniqueKey_loop
proof (relation "measure (\<lambda>(m, k). length (keys_from (nodeDataArray m) k))")
  show "wf (measure (\<lambda>(m, k). length (keys_from (nodeDataArray m) k)))"
    by simp
next
  fix m :: GraphLinksModel and k :: int
  assume "findNodeDataForKey m k \<noteq> None"
  then obtain d where d: "d \<in> set (nodeDataArray m)" "key d = Some k"
    by (auto simp: findNodeDataForKey_def find_None_iff)
  have step: "keys_from (nodeDataArray m) (k + 1) =
      filter (\<lambda>d. case key d of None \<Rightarrow> False | Some j \<Rightarrow> k + 1 \<le> j)
        (keys_from (nodeDataArray m) k)"
    unfolding keys_from_def filter_filter
    by (rule filter_cong) (auto split: option.splits)
  have "d \<in> set (keys_from (nodeDataArray m) k)"
    using d by (simp add: keys_from_def)
  moreover have "\<not> (case key d of None \<Rightarrow> False | Some j \<Rightarrow> k + 1 \<le> j)"
    using d by simp
  ultimately have "length (keys_from (nodeDataArray m) (k + 1))
      < length (keys_from (nodeDataArray m) k)"
    unfolding step by (rule length_filter_less)
  then show "((m, k + 1), (m, k)) \<in> measure (\<lambda>(m, k). length (keys_from (nodeDataArray m) k))"
    by simp
qed

declare makeUniqueKey_loop.simps [simp del]

text \<open>
  \<^verbatim>\<open>makeUniqueKeyFunction: (m, data) => { let k = data.key || 1;
     while (m.findNodeDataForKey(k)) k++; data.key = k; return k; }\<close>
  The function mutates \<^verbatim>\<open>data\<close>: the model returns the updated object beside the key.
\<close>

definition makeUniqueKeyFunction :: "GraphLinksModel \<Rightarrow> ObjectData \<Rightarrow> ObjectData \<times> int" where
  "makeUniqueKeyFunction m data =
     (let k = makeUniqueKey_loop m (key_or (key data) 1)
      in (data\<lparr>key := Some k\<rparr>, k))"

text \<open>\<^verbatim>\<open>while (m.findLinkDataForKey(k)) k--;\<close>\<close>

function makeUniqueLinkKey_loop :: "GraphLinksModel \<Rightarrow> int \<Rightarrow> int" where
  "makeUniqueLinkKey_loop m k =
     (if findLinkDataForKey m k \<noteq> None then makeUniqueLinkKey_loop m (k - 1) else k)"
  by pat_completeness auto

termination makeUniqueLinkKey_loop
proof (relation "measure (\<lambda>(m, k). length (keys_upto (linkDataArray m) k))")
  show "wf (measure (\<lambda>(m, k). length (keys_upto (linkDataArray m) k)))"
    by simp
next
  fix m :: GraphLinksModel and k :: int
  assume "findLinkDataForKey m k \<noteq> None"
  then obtain d where d: "d \<in> set (linkDataArray m)" "key d = Some k"
    by (auto simp: findLinkDataForKey_def find_None_iff)
  have step: "keys_upto (linkDataArray m) (k - 1) =
      filter (\<lambda>d. case key d of None \<Rightarrow> False | Some j \<Rightarrow> j \<le> k - 1)
        (keys_upto (linkDataArray m) k)"
    unfolding keys_upto_def filter_filter
    by (rule filter_cong) (auto split: option.splits)
  have "d \<in> set (keys_upto (linkDataArray m) k)"
    using d by (simp add: keys_upto_def)
  moreover have "\<not> (case key d of None \<Rightarrow> False | Some j \<Rightarrow> j \<le> k - 1)"
    using d by simp
  ultimately have "length (keys_upto (linkDataArray m) (k - 1))
      < length (keys_upto (linkDataArray m) k)"
    unfolding step by (rule length_filter_less)
  then show "((m, k - 1), (m, k)) \<in> measure (\<lambda>(m, k). length (keys_upto (linkDataArray m) k))"
    by simp
qed

declare makeUniqueLinkKey_loop.simps [simp del]

text \<open>
  \<^verbatim>\<open>makeUniqueLinkKeyFunction: (m, data) => { let k = data.key || -1;
     while (m.findLinkDataForKey(k)) k--; data.key = k; return k; }\<close>
\<close>

definition makeUniqueLinkKeyFunction :: "GraphLinksModel \<Rightarrow> ObjectData \<Rightarrow> ObjectData \<times> int" where
  "makeUniqueLinkKeyFunction m data =
     (let k = makeUniqueLinkKey_loop m (key_or (key data) (- 1))
      in (data\<lparr>key := Some k\<rparr>, k))"

subsection \<open>The library's insertion and removal\<close>

text \<open>
  \<^verbatim>\<open>Model.addNodeData\<close> and \<^verbatim>\<open>GraphLinksModel.addLinkData\<close> belong to the library.
  As documented, they make the key of the new data unique first (when the data has no
  key, or its key is already in use, the model's key function is called on it) and then
  add the data to the array. The key function is called exactly when
  \<open>needsNodeKey\<close> (\<open>needsLinkKey\<close>) holds.
\<close>

definition needsNodeKey :: "GraphLinksModel \<Rightarrow> ObjectData \<Rightarrow> bool" where
  "needsNodeKey m d = (case key d of None \<Rightarrow> True | Some k \<Rightarrow> findNodeDataForKey m k \<noteq> None)"

definition needsLinkKey :: "GraphLinksModel \<Rightarrow> ObjectData \<Rightarrow> bool" where
  "needsLinkKey m d = (case key d of None \<Rightarrow> True | Some k \<Rightarrow> findLinkDataForKey m k \<noteq> None)"

definition addNodeData :: "GraphLinksModel \<Rightarrow> ObjectData \<Rightarrow> GraphLinksModel" where
  "addNodeData m d =
     (let d' = (if needsNodeKey m d then fst (makeUniqueKeyFunction m d) else d)
      in m\<lparr>nodeDataArray := nodeDataArray m @ [d']\<rparr>)"

definition addLinkData :: "GraphLinksModel \<Rightarrow> ObjectData \<Rightarrow> GraphLinksModel" where
  "addLinkData m d =
     (let d' = (if needsLinkKey m d then fst (makeUniqueLinkKeyFunction m d) else d)
      in m\<lparr>linkDataArray := linkDataArray m @ [d']\<rparr>)"

text \<open>\<^verbatim>\<open>Model.removeNodeData\<close>, \<^verbatim>\<open>GraphLinksModel.removeLinkData\<close>: the object leaves the array.\<close>

definition removeNodeData :: "GraphLinksModel \<Rightarrow> ObjectData \<Rightarrow> GraphLinksModel" where
  "removeNodeData m d = m\<lparr>nodeDataArray := remove1 d (nodeDataArray m)\<rparr>"

definition removeLinkData :: "GraphLinksModel \<Rightarrow> ObjectData \<Rightarrow> GraphLinksModel" where
  "removeLinkData m d = m\<lparr>linkDataArray := remove1 d (linkDataArray m)\<rparr>"

definition emptyModel :: GraphLinksModel where
  "emptyModel = \<lparr>nodeDataArray = [], linkDataArray = []\<rparr>"

text \<open>
  The model states that arise from the empty model by insertions that go through the key
  functions, and by removals.
\<close>

inductive reachable :: "GraphLinksModel \<Rightarrow> bool" where
  reachable_empty: "reachable emptyModel"
| reachable_addNode: "reachable m \<Longrightarrow> needsNodeKey m d \<Longrightarrow> reachable (addNodeData m d)"
| reachable_addLink: "reachable m \<Longrightarrow> needsLinkKey m d \<Longrightarrow> reachable (addLinkData m d)"
| reachable_removeNode: "reachable m \<Longrightarrow> reachable (removeNodeData m d)"
| reachable_removeLink: "reachable m \<Longrightarrow> reachable (removeLinkData m d)"

section \<open>Drop handling\<close>

text \<open>\<^verbatim>\<open>enum DropType\<close>: a string enum; at run time a member is its string.\<close>

datatype DropType = Screen | Branching | Start | End

fun DropType_value :: "DropType \<Rightarrow> string" where
  "DropType_value Screen = ''Screen''"
| "DropType_value Branching = ''Branching''"
| "DropType_value Start = ''Start''"
| "DropType_value End = ''End''"

definition determineNodeType :: "string \<Rightarrow> DropType" where
  "determineNodeType t =
     (if t = ''area'' then Branching
      else if t = ''tools'' then Start
      else if t = ''happen'' then End
      else Screen)"

definition determineNodeText :: "string \<Rightarrow> string" where
  "determineNodeText t =
     (if t = ''area'' then ''Branching''
      else if t = ''tools'' then ''Start''
      else if t = ''happen'' then ''End''
      else ''Display Screen'')"

text \<open>
  The drag event: \<^verbatim>\<open>dataTransfer\<close> may be \<^verbatim>\<open>null\<close>; when present it holds the dragged
  data by format. \<^verbatim>\<open>getData\<close> gives the empty string for a format that has no data.
\<close>

record DragEvent =
  dataTransfer :: "(string \<times> string) list option"
  clientX :: real
  clientY :: real

definition getData :: "(string \<times> string) list \<Rightarrow> string \<Rightarrow> string" where
  "getData dt fmt = (case map_of dt fmt of None \<Rightarrow> [] | Some v \<Rightarrow> v)"

text \<open>
  The diagram: its model and its current view transform (\<^verbatim>\<open>transformViewToDoc\<close>, a
  library method, taken as a parameter).
\<close>

record Diagram =
  model :: GraphLinksModel
  transformViewToDoc :: "Point \<Rightarrow> Point"

text \<open>
  \<^verbatim>\<open>handleDrop\<close> of the current component (variant A). The argument \<open>diagram\<close> is
  \<^verbatim>\<open>this.diagramElRef.current?.getDiagram()\<close>, \<open>None\<close> when there is none; the result
  is the diagram after the handler has run. \<^verbatim>\<open>?? ""\<close> gives the empty string when
  there is no \<^verbatim>\<open>dataTransfer\<close>.
\<close>

definition handleDrop :: "Diagram option \<Rightarrow> DragEvent \<Rightarrow> Diagram option" where
  "handleDrop diagram event =
     (let txt = (case dataTransfer event of None \<Rightarrow> [] | Some dt \<Rightarrow> getData dt ''text/plain'');
          cat = determineNodeType txt;
          nodeText = determineNodeText txt;
          mx = 70;
          my = 70
      in case diagram of
           None \<Rightarrow> None
         | Some dg \<Rightarrow>
             Some (dg\<lparr>model := addNodeData (model dg)
                     \<lparr>key = None,
                      location = Some (transformViewToDoc dg (Point mx my)),
                      text = Some nodeText,
                      category = Some (DropType_value cat)\<rparr>\<rparr>))"

section \<open>Ports and node templates\<close>

datatype Spot = Spot_Top | Spot_Left | Spot_Right | Spot_Bottom
  | Spot_TopSide | Spot_LeftSide | Spot_RightSide | Spot_BottomSide

datatype Stretch = Horizontal | Vertical

text \<open>
  The properties \<^verbatim>\<open>makePort\<close> sets on the port's shape. A width or height of
  \<^verbatim>\<open>NaN\<close> (not set) is \<open>None\<close>. The two mouse handlers only recolour the port and are
  left out.
\<close>

record Shape =
  fill :: string
  strokeWidth :: nat
  width :: "nat option"
  height :: "nat option"
  alignment :: Spot
  stretch :: Stretch
  portId :: string
  fromSpot :: Spot
  fromLinkable :: bool
  toSpot :: Spot
  toLinkable :: bool
  cursor :: string

definition makePort :: "string \<Rightarrow> Spot \<Rightarrow> Spot \<Rightarrow> bool \<Rightarrow> bool \<Rightarrow> Shape" where
  "makePort nm align spot output input =
     (let horizontal = (align = Spot_Top \<or> align = Spot_Bottom)
      in \<lparr>fill = ''transparent'',
          strokeWidth = 0,
          width = (if horizontal then None else Some 8),
          height = (if \<not> horizontal then None else Some 8),
          alignment = align,
          stretch = (if horizontal then Horizontal else Vertical),
          portId = nm,
          fromSpot = spot,
          fromLinkable = output,
          toSpot = spot,
          toLinkable = input,
          cursor = ''pointer''\<rparr>)"

text \<open>
  A node template is modelled by its ports; \<^verbatim>\<open>nodeTemplateMap\<close> maps a category to
  its template. The map of \<^verbatim>\<open>initDiagram\<close> in the current component:
\<close>

definition initDiagram_nodeTemplateMap :: "(string \<times> Shape list) list" where
  "initDiagram_nodeTemplateMap =
     [(DropType_value Screen,
         [makePort ''T'' Spot_Top Spot_TopSide True True,
          makePort ''L'' Spot_Left Spot_LeftSide True True,
          makePort ''R'' Spot_Right Spot_RightSide True True,
          makePort ''B'' Spot_Bottom Spot_BottomSide True True]),
      (DropType_value Branching,
         [makePort ''T'' Spot_Top Spot_Top True True,
          makePort ''L'' Spot_Left Spot_Left True True,
          makePort ''R'' Spot_Right Spot_Right True True]),
      (DropType_value Start,
         [makePort ''L'' Spot_Left Spot_Left True False,
          makePort ''R'' Spot_Right Spot_Right True False,
          makePort ''B'' Spot_Bottom Spot_Bottom True False]),
      (DropType_value End,
         [makePort ''L'' Spot_Left Spot_Left False True,
          makePort ''R'' Spot_Right Spot_Right False True,
          makePort ''T'' Spot_Top Spot_Top False True])]"

text \<open>
  The map of \<^verbatim>\<open>initGoDiagram\<close>. The four \<^verbatim>\<open>makePort\<close> calls that follow the default
  template are statements of their own: their ports belong to no template.
\<close>

definition initGoDiagram_nodeTemplateMap :: "(string \<times> Shape list) list" where
  "initGoDiagram_nodeTemplateMap =
     [([], []),
      (''Conditional'',
         [makePort ''T'' Spot_Top Spot_Top False True,
          makePort ''L'' Spot_Left Spot_Left True True,
          makePort ''R'' Spot_Right Spot_Right True True,
          makePort ''B'' Spot_Bottom Spot_Bottom True False]),
      (''Start'',
         [makePort ''L'' Spot_Left Spot_Left True False,
          makePort ''R'' Spot_Right Spot_Right True False,
          makePort ''B'' Spot_Bottom Spot_Bottom True False]),
      (''End'',
         [makePort ''T'' Spot_Top Spot_Top False True,
          makePort ''L'' Spot_Left Spot_Left False True,
          makePort ''R'' Spot_Right Spot_Right False True]),
      (''Comment'', [])]"

text \<open>The ports of the template registered for a category (none when there is no such template).\<close>

definition templatePorts :: "(string \<times> Shape list) list \<Rightarrow> string \<Rightarrow> Shape list" where
  "templatePorts tm cat = (case map_of tm cat of None \<Rightarrow> [] | Some ps \<Rightarrow> ps)"

section \<open>Link label visibility\<close>

text \<open>
  The argument of \<^verbatim>\<open>showLinkLabel\<close>, as its signature declares it: an event whose
  subject (the link) has \<^verbatim>\<open>findObject\<close>, from a name to the object of that name or
  \<^verbatim>\<open>null\<close>, and \<^verbatim>\<open>fromNode.data.category\<close>. The assignment to \<^verbatim>\<open>label.visible\<close>
  changes the object that \<^verbatim>\<open>findObject\<close> gives afterwards.
\<close>

record GraphObject =
  name :: string
  visible :: bool

record Node =
  data :: ObjectData

record Link =
  findObject :: "string \<Rightarrow> GraphObject option"
  fromNode :: Node

record DiagramEvent =
  subject :: Link

definition showLinkLabel :: "DiagramEvent \<Rightarrow> DiagramEvent" where
  "showLinkLabel e =
     (case findObject (subject e) ''LABEL'' of
        None \<Rightarrow> e
      | Some label \<Rightarrow>
          e\<lparr>subject := (subject e)
              \<lparr>findObject := (findObject (subject e))
                 (''LABEL'' \<mapsto>
                    label\<lparr>visible := (category (data (fromNode (subject e))) = Some ''Conditional'')\<rparr>)\<rparr>\<rparr>)"

text \<open>
  The diagram listeners of \<^verbatim>\<open>initGoDiagram\<close> that act on the diagram's parts
  (\<^verbatim>\<open>LinkDrawn: showLinkLabel, LinkRelinked: showLinkLabel\<close>), and the raising of an
  event of a given name. The \<^verbatim>\<open>Modified\<close> listener touches the page only.
\<close>

definition initGoDiagram_listener :: "string \<Rightarrow> (DiagramEvent \<Rightarrow> DiagramEvent) option" where
  "initGoDiagram_listener n =
     (if n = ''LinkDrawn'' then Some showLinkLabel
      else if n = ''LinkRelinked'' then Some showLinkLabel
      else None)"

definition raiseDiagramEvent :: "string \<Rightarrow> DiagramEvent \<Rightarrow> DiagramEvent" where
  "raiseDiagramEvent n e = (case initGoDiagram_listener n of None \<Rightarrow> e | Some f \<Rightarrow> f e)"

text \<open>
  The named objects of the link template of \<^verbatim>\<open>initGoDiagram\<close>: the highlight shape,
  and the label panel, created hidden.
\<close>

definition initGoDiagram_linkTemplate :: "string \<Rightarrow> GraphObject option" where
  "initGoDiagram_linkTemplate =
     [''HIGHLIGHT'' \<mapsto> \<lparr>name = ''HIGHLIGHT'', visible = True\<rparr>,
      ''LABEL'' \<mapsto> \<lparr>name = ''LABEL'', visible = False\<rparr>]"

text \<open>The two halves of the key discipline, as checks on a model.\<close>

definition nodeKeysPositive :: "GraphLinksModel \<Rightarrow> bool" where
  "nodeKeysPositive m =
     list_all (\<lambda>n. case key n of None \<Rightarrow> False | Some k \<Rightarrow> 0 < k) (nodeDataArray m)"

definition linkKeysNegative :: "GraphLinksModel \<Rightarrow> bool" where
  "linkKeysNegative m =
     list_all (\<lambda>l. case key l of None \<Rightarrow> False | Some k \<Rightarrow> k < 0) (linkDataArray m)"

section \<open>Example inputs\<close>

text \<open>The object \<^verbatim>\<open>{}\<close>, and the object \<^verbatim>\<open>{key: k}\<close>.\<close>

definition emptyObject :: ObjectData where
  "emptyObject = \<lparr>key = None, location = None, text = None, category = None\<rparr>"

definition objectWithKey :: "int \<Rightarrow> ObjectData" where
  "objectWithKey k = emptyObject\<lparr>key := Some k\<rparr>"

text \<open>Deleting the node that has a given key: the node data is looked up and removed.\<close>

definition removeNodeWithKey :: "GraphLinksModel \<Rightarrow> int \<Rightarrow> GraphLinksModel" where
  "removeNodeWithKey m k =
     (case findNodeDataForKey m k of None \<Rightarrow> m | Some d \<Rightarrow> removeNodeData m d)"

text \<open>
  The event for a link made from the link template of \<^verbatim>\<open>initGoDiagram\<close> whose source
  node has the given category.
\<close>

definition linkEventFrom :: "string \<Rightarrow> DiagramEvent" where
  "linkEventFrom cat =
     \<lparr>subject = \<lparr>findObject = initGoDiagram_linkTemplate,
                  fromNode = \<lparr>data = emptyObject\<lparr>key := Some 1, category := Some cat\<rparr>\<rparr>\<rparr>\<rparr>"

section \<open>Properties of key allocation\<close>

lemma findNodeDataForKey_None_iff:
  "findNodeDataForKey m k = None \<longleftrightarrow> (\<forall>d \<in> set (nodeDataArray m). key d \<noteq> Some k)"
  by (auto simp: findNodeDataForKey_def find_None_iff)

lemma findLinkDataForKey_None_iff:
  "findLinkDataForKey m k = None \<longleftrightarrow> (\<forall>d \<in> set (linkDataArray m). key d \<noteq> Some k)"
  by (auto simp: findLinkDataForKey_def find_None_iff)

lemma makeUniqueKey_loop_stop:
  "findNodeDataForKey m k = None \<Longrightarrow> makeUniqueKey_loop m k = k"
  by (subst makeUniqueKey_loop.simps) simp

lemma makeUniqueKey_loop_step:
  "findNodeDataForKey m k \<noteq> None \<Longrightarrow> makeUniqueKey_loop m k = makeUniqueKey_loop m (k + 1)"
  by (subst makeUniqueKey_loop.simps) simp

lemma makeUniqueLinkKey_loop_stop:
  "findLinkDataForKey m k = None \<Longrightarrow> makeUniqueLinkKey_loop m k = k"
  by (subst makeUniqueLinkKey_loop.simps) simp

lemma makeUniqueLinkKey_loop_step:
  "findLinkDataForKey m k \<noteq> None \<Longrightarrow> makeUniqueLinkKey_loop m k = makeUniqueLinkKey_loop m (k - 1)"
  by (subst makeUniqueLinkKey_loop.simps) simp

lemma makeUniqueKey_loop_free: "findNodeDataForKey m (makeUniqueKey_loop m k) = None"
proof (induction m k rule: makeUniqueKey_loop.induct)
  case (1 m k)
  then show ?case
    by (cases "findNodeDataForKey m k = None")
       (simp_all add: makeUniqueKey_loop_stop makeUniqueKey_loop_step)
qed

lemma makeUniqueKey_loop_ge: "k \<le> makeUniqueKey_loop m k"
proof (induction m k rule: makeUniqueKey_loop.induct)
  case (1 m k)
  show ?case
  proof (cases "findNodeDataForKey m k = None")
    case True
    then show ?thesis by (simp add: makeUniqueKey_loop_stop)
  next
    case False
    with 1 have "k + 1 \<le> makeUniqueKey_loop m (k + 1)" by simp
    with False show ?thesis by (simp add: makeUniqueKey_loop_step)
  qed
qed

lemma makeUniqueKey_loop_used:
  "k \<le> j \<Longrightarrow> j < makeUniqueKey_loop m k \<Longrightarrow> findNodeDataForKey m j \<noteq> None"
proof (induction m k rule: makeUniqueKey_loop.induct)
  case (1 m k)
  show ?case
  proof (cases "findNodeDataForKey m k = None")
    case True
    with 1(3) have "j < k" by (simp add: makeUniqueKey_loop_stop)
    with 1(2) show ?thesis by simp
  next
    case False
    show ?thesis
    proof (cases "j = k")
      case True
      with False show ?thesis by simp
    next
      case neq: False
      from False 1(3) have "j < makeUniqueKey_loop m (k + 1)"
        by (simp add: makeUniqueKey_loop_step)
      moreover from neq 1(2) have "k + 1 \<le> j" by simp
      ultimately show ?thesis using 1(1) False by simp
    qed
  qed
qed

lemma makeUniqueLinkKey_loop_free: "findLinkDataForKey m (makeUniqueLinkKey_loop m k) = None"
proof (induction m k rule: makeUniqueLinkKey_loop.induct)
  case (1 m k)
  then show ?case
    by (cases "findLinkDataForKey m k = None")
       (simp_all add: makeUniqueLinkKey_loop_stop makeUniqueLinkKey_loop_step)
qed

lemma makeUniqueLinkKey_loop_le: "makeUniqueLinkKey_loop m k \<le> k"
proof (induction m k rule: makeUniqueLinkKey_loop.induct)
  case (1 m k)
  show ?case
  proof (cases "findLinkDataForKey m k = None")
    case True
    then show ?thesis by (simp add: makeUniqueLinkKey_loop_stop)
  next
    case False
    with 1 have "makeUniqueLinkKey_loop m (k - 1) \<le> k - 1" by simp
    with False show ?thesis by (simp add: makeUniqueLinkKey_loop_step)
  qed
qed

lemma makeUniqueLinkKey_loop_used:
  "j \<le> k \<Longrightarrow> makeUniqueLinkKey_loop m k < j \<Longrightarrow> findLinkDataForKey m j \<noteq> None"
proof (induction m k rule: makeUniqueLinkKey_loop.induct)
  case (1 m k)
  show ?case
  proof (cases "findLinkDataForKey m k = None")
    case True
    with 1(3) have "k < j" by (simp add: makeUniqueLinkKey_loop_stop)
    with 1(2) show ?thesis by simp
  next
    case False
    show ?thesis
    proof (cases "j = k")
      case True
      with False show ?thesis by simp
    next
      case neq: False
      from False 1(3) have "makeUniqueLinkKey_loop m (k - 1) < j"
        by (simp add: makeUniqueLinkKey_loop_step)
      moreover from neq 1(2) have "j \<le> k - 1" by simp
      ultimately show ?thesis using 1(1) False by simp
    qed
  qed
qed

subsection \<open>How far a search moves\<close>

lemma keys_from_shrinks:
  assumes "d \<in> set ds" and "key d = Some k"
  shows "length (keys_from ds (k + 1)) < length (keys_from ds k)"
proof -
  have step: "keys_from ds (k + 1) =
      filter (\<lambda>d. case key d of None \<Rightarrow> False | Some j \<Rightarrow> k + 1 \<le> j) (keys_from ds k)"
    unfolding keys_from_def filter_filter
    by (rule filter_cong) (auto split: option.splits)
  have "d \<in> set (keys_from ds k)"
    using assms by (simp add: keys_from_def)
  moreover have "\<not> (case key d of None \<Rightarrow> False | Some j \<Rightarrow> k + 1 \<le> j)"
    using assms by simp
  ultimately show ?thesis
    unfolding step by (rule length_filter_less)
qed

lemma keys_upto_shrinks:
  assumes "d \<in> set ds" and "key d = Some k"
  shows "length (keys_upto ds (k - 1)) < length (keys_upto ds k)"
proof -
  have step: "keys_upto ds (k - 1) =
      filter (\<lambda>d. case key d of None \<Rightarrow> False | Some j \<Rightarrow> j \<le> k - 1) (keys_upto ds k)"
    unfolding keys_upto_def filter_filter
    by (rule filter_cong) (auto split: option.splits)
  have "d \<in> set (keys_upto ds k)"
    using assms by (simp add: keys_upto_def)
  moreover have "\<not> (case key d of None \<Rightarrow> False | Some j \<Rightarrow> j \<le> k - 1)"
    using assms by simp
  ultimately show ?thesis
    unfolding step by (rule length_filter_less)
qed

lemma makeUniqueKey_loop_le_from:
  "makeUniqueKey_loop m k \<le> k + int (length (keys_from (nodeDataArray m) k))"
proof (induction m k rule: makeUniqueKey_loop.induct)
  case (1 m k)
  show ?case
  proof (cases "findNodeDataForKey m k = None")
    case True
    then show ?thesis by (simp add: makeUniqueKey_loop_stop)
  next
    case False
    then obtain d where "d \<in> set (nodeDataArray m)" "key d = Some k"
      by (auto simp: findNodeDataForKey_None_iff)
    then have "length (keys_from (nodeDataArray m) (k + 1)) < length (keys_from (nodeDataArray m) k)"
      by (rule keys_from_shrinks)
    moreover from False 1
    have "makeUniqueKey_loop m (k + 1) \<le> k + 1 + int (length (keys_from (nodeDataArray m) (k + 1)))"
      by simp
    ultimately have "makeUniqueKey_loop m (k + 1) \<le> k + int (length (keys_from (nodeDataArray m) k))"
      by linarith
    with False show ?thesis by (simp add: makeUniqueKey_loop_step)
  qed
qed

lemma makeUniqueKey_loop_le:
  "makeUniqueKey_loop m k \<le> k + int (length (nodeDataArray m))"
proof -
  have "length (keys_from (nodeDataArray m) k) \<le> length (nodeDataArray m)"
    by (simp add: keys_from_def)
  with makeUniqueKey_loop_le_from [of m k] show ?thesis by linarith
qed

lemma makeUniqueLinkKey_loop_ge_upto:
  "k - int (length (keys_upto (linkDataArray m) k)) \<le> makeUniqueLinkKey_loop m k"
proof (induction m k rule: makeUniqueLinkKey_loop.induct)
  case (1 m k)
  show ?case
  proof (cases "findLinkDataForKey m k = None")
    case True
    then show ?thesis by (simp add: makeUniqueLinkKey_loop_stop)
  next
    case False
    then obtain d where "d \<in> set (linkDataArray m)" "key d = Some k"
      by (auto simp: findLinkDataForKey_None_iff)
    then have "length (keys_upto (linkDataArray m) (k - 1)) < length (keys_upto (linkDataArray m) k)"
      by (rule keys_upto_shrinks)
    moreover from False 1
    have "k - 1 - int (length (keys_upto (linkDataArray m) (k - 1))) \<le> makeUniqueLinkKey_loop m (k - 1)"
      by simp
    ultimately have "k - int (length (keys_upto (linkDataArray m) k)) \<le> makeUniqueLinkKey_loop m (k - 1)"
      by linarith
    with False show ?thesis by (simp add: makeUniqueLinkKey_loop_step)
  qed
qed

lemma makeUniqueLinkKey_loop_ge:
  "k - int (length (linkDataArray m)) \<le> makeUniqueLinkKey_loop m k"
proof -
  have "length (keys_upto (linkDataArray m) k) \<le> length (linkDataArray m)"
    by (simp add: keys_upto_def)
  with makeUniqueLinkKey_loop_ge_upto [of k m] show ?thesis by linarith
qed


section \<open>Claims about key allocation\<close>

text \<open>
  C1. For a node data object without a key, \<open>makeUniqueKeyFunction\<close> returns an integer
  greater than 0 that no node data of the model has as its key, and the least such: every
  integer from 1 up to, but excluding, the result is the key of some node data.
\<close>

theorem makeUniqueKeyFunction_keyless:
  assumes "key d = None"
  shows "0 < snd (makeUniqueKeyFunction m d)
    \<and> (\<forall>n \<in> set (nodeDataArray m). key n \<noteq> Some (snd (makeUniqueKeyFunction m d)))
    \<and> (\<forall>j. 1 \<le> j \<and> j < snd (makeUniqueKeyFunction m d)
          \<longrightarrow> (\<exists>n \<in> set (nodeDataArray m). key n = Some j))"
proof -
  have r: "snd (makeUniqueKeyFunction m d) = makeUniqueKey_loop m 1"
    using assms by (simp add: makeUniqueKeyFunction_def key_or_def Let_def)
  have "1 \<le> makeUniqueKey_loop m 1"
    by (rule makeUniqueKey_loop_ge)
  then have pos: "0 < makeUniqueKey_loop m 1"
    by simp
  have free: "\<forall>n \<in> set (nodeDataArray m). key n \<noteq> Some (makeUniqueKey_loop m 1)"
    using makeUniqueKey_loop_free [of m 1] by (simp add: findNodeDataForKey_None_iff)
  have least: "\<exists>n \<in> set (nodeDataArray m). key n = Some j"
    if "1 \<le> j" "j < makeUniqueKey_loop m 1" for j
    using makeUniqueKey_loop_used [OF that] by (simp add: findNodeDataForKey_None_iff)
  from pos free least show ?thesis
    unfolding r by blast
qed

theorem makeUniqueKeyFunction_keyless_witness:
  "key emptyObject = None
   \<and> snd (makeUniqueKeyFunction
          \<lparr>nodeDataArray = [objectWithKey 1, objectWithKey 2, objectWithKey 4],
           linkDataArray = []\<rparr> emptyObject) = 3"
proof -
  let ?K = "snd (makeUniqueKeyFunction
          \<lparr>nodeDataArray = [objectWithKey 1, objectWithKey 2, objectWithKey 4],
           linkDataArray = []\<rparr> emptyObject)"
  have h: "key emptyObject = None"
    by (simp add: emptyObject_def)
  note spec = makeUniqueKeyFunction_keyless
    [OF h, of "\<lparr>nodeDataArray = [objectWithKey 1, objectWithKey 2, objectWithKey 4],
               linkDataArray = []\<rparr>"]
  from spec have pos: "0 < ?K"
    by (rule conjunct1)
  from spec have "?K \<noteq> 1 \<and> ?K \<noteq> 2 \<and> ?K \<noteq> 4"
    by (simp add: objectWithKey_def emptyObject_def)
  moreover from spec have "1 \<le> (3::int) \<and> 3 < ?K \<longrightarrow>
      (\<exists>n \<in> set [objectWithKey 1, objectWithKey 2, objectWithKey 4]. key n = Some 3)"
    by simp
  then have "\<not> 3 < ?K"
    by (simp add: objectWithKey_def emptyObject_def)
  ultimately have "?K = 3"
    using pos by arith
  with h show ?thesis
    by (rule conjI)
qed

text \<open>
  C2. For a link data object without a key, \<open>makeUniqueLinkKeyFunction\<close> returns a
  negative integer that no link data of the model has as its key, and the one of least
  magnitude: every integer from -1 down to, but excluding, the result is the key of some
  link data.
\<close>

theorem makeUniqueLinkKeyFunction_keyless:
  assumes "key d = None"
  shows "snd (makeUniqueLinkKeyFunction m d) < 0
    \<and> (\<forall>l \<in> set (linkDataArray m). key l \<noteq> Some (snd (makeUniqueLinkKeyFunction m d)))
    \<and> (\<forall>j. snd (makeUniqueLinkKeyFunction m d) < j \<and> j \<le> - 1
          \<longrightarrow> (\<exists>l \<in> set (linkDataArray m). key l = Some j))"
proof -
  have r: "snd (makeUniqueLinkKeyFunction m d) = makeUniqueLinkKey_loop m (- 1)"
    using assms by (simp add: makeUniqueLinkKeyFunction_def key_or_def Let_def)
  have "makeUniqueLinkKey_loop m (- 1) \<le> - 1"
    by (rule makeUniqueLinkKey_loop_le)
  then have neg: "makeUniqueLinkKey_loop m (- 1) < 0"
    by simp
  have free: "\<forall>l \<in> set (linkDataArray m). key l \<noteq> Some (makeUniqueLinkKey_loop m (- 1))"
    using makeUniqueLinkKey_loop_free [of m "- 1"] by (simp add: findLinkDataForKey_None_iff)
  have least: "\<exists>l \<in> set (linkDataArray m). key l = Some j"
    if "makeUniqueLinkKey_loop m (- 1) < j" "j \<le> - 1" for j
    using makeUniqueLinkKey_loop_used [OF that(2) that(1)]
    by (simp add: findLinkDataForKey_None_iff)
  from neg free least show ?thesis
    unfolding r by blast
qed

theorem makeUniqueLinkKeyFunction_keyless_witness:
  "key emptyObject = None
   \<and> snd (makeUniqueLinkKeyFunction
          \<lparr>nodeDataArray = [], linkDataArray = [objectWithKey (- 1), objectWithKey (- 3)]\<rparr>
          emptyObject) = - 2"
proof -
  let ?K = "snd (makeUniqueLinkKeyFunction
          \<lparr>nodeDataArray = [], linkDataArray = [objectWithKey (- 1), objectWithKey (- 3)]\<rparr>
          emptyObject)"
  have h: "key emptyObject = None"
    by (simp add: emptyObject_def)
  note spec = makeUniqueLinkKeyFunction_keyless
    [OF h, of "\<lparr>nodeDataArray = [],
               linkDataArray = [objectWithKey (- 1), objectWithKey (- 3)]\<rparr>"]
  from spec have neg: "?K < 0"
    by (rule conjunct1)
  from spec have "?K \<noteq> - 1 \<and> ?K \<noteq> - 3"
    by (simp add: objectWithKey_def emptyObject_def)
  moreover from spec have "?K < (- 2::int) \<and> (- 2::int) \<le> - 1 \<longrightarrow>
      (\<exists>l \<in> set [objectWithKey (- 1), objectWithKey (- 3)]. key l = Some (- 2))"
    by simp
  then have "\<not> ?K < - 2"
    by (simp add: objectWithKey_def emptyObject_def)
  ultimately have "?K = - 2"
    using neg by arith
  with h show ?thesis
    by (rule conjI)
qed

text \<open>The two searches on these models, evaluated: the results are 3 and -2.\<close>

lemma makeUniqueKeyFunction_example:
  "makeUniqueKeyFunction
     \<lparr>nodeDataArray = [objectWithKey 1, objectWithKey 2, objectWithKey 4], linkDataArray = []\<rparr>
     emptyObject = (objectWithKey 3, 3)"
  by (simp add: makeUniqueKeyFunction_def key_or_def findNodeDataForKey_def
      makeUniqueKey_loop.simps objectWithKey_def emptyObject_def)

lemma makeUniqueLinkKeyFunction_example:
  "makeUniqueLinkKeyFunction
     \<lparr>nodeDataArray = [], linkDataArray = [objectWithKey (- 1), objectWithKey (- 3)]\<rparr>
     emptyObject = (objectWithKey (- 2), - 2)"
  by (simp add: makeUniqueLinkKeyFunction_def key_or_def findLinkDataForKey_def
      makeUniqueLinkKey_loop.simps objectWithKey_def emptyObject_def)


text \<open>
  C10. Both key functions write the key they return into the data object (and change
  nothing else of it); and on an object whose key is truthy and not in use among the
  data of the same kind, they return that key and leave the object as it is.
\<close>

theorem key_functions_write_back:
  "fst (makeUniqueKeyFunction m d) = d\<lparr>key := Some (snd (makeUniqueKeyFunction m d))\<rparr>
   \<and> fst (makeUniqueLinkKeyFunction m d) = d\<lparr>key := Some (snd (makeUniqueLinkKeyFunction m d))\<rparr>
   \<and> key (fst (makeUniqueKeyFunction m d)) = Some (snd (makeUniqueKeyFunction m d))
   \<and> key (fst (makeUniqueLinkKeyFunction m d)) = Some (snd (makeUniqueLinkKeyFunction m d))
   \<and> (key d = Some k \<and> k \<noteq> 0 \<and> findNodeDataForKey m k = None
        \<longrightarrow> makeUniqueKeyFunction m d = (d, k))
   \<and> (key d = Some k \<and> k \<noteq> 0 \<and> findLinkDataForKey m k = None
        \<longrightarrow> makeUniqueLinkKeyFunction m d = (d, k))"
proof -
  have node: "makeUniqueKeyFunction m d = (d, k)"
    if "key d = Some k" "k \<noteq> 0" "findNodeDataForKey m k = None"
  proof -
    from that have "makeUniqueKey_loop m (key_or (key d) 1) = k"
      by (simp add: key_or_def makeUniqueKey_loop_stop)
    moreover from that have "d\<lparr>key := Some k\<rparr> = d"
      by simp
    ultimately show ?thesis
      by (simp add: makeUniqueKeyFunction_def Let_def)
  qed
  have link: "makeUniqueLinkKeyFunction m d = (d, k)"
    if "key d = Some k" "k \<noteq> 0" "findLinkDataForKey m k = None"
  proof -
    from that have "makeUniqueLinkKey_loop m (key_or (key d) (- 1)) = k"
      by (simp add: key_or_def makeUniqueLinkKey_loop_stop)
    moreover from that have "d\<lparr>key := Some k\<rparr> = d"
      by simp
    ultimately show ?thesis
      by (simp add: makeUniqueLinkKeyFunction_def Let_def)
  qed
  have "fst (makeUniqueKeyFunction m d) = d\<lparr>key := Some (snd (makeUniqueKeyFunction m d))\<rparr>"
    by (simp add: makeUniqueKeyFunction_def Let_def)
  moreover
  have "fst (makeUniqueLinkKeyFunction m d) = d\<lparr>key := Some (snd (makeUniqueLinkKeyFunction m d))\<rparr>"
    by (simp add: makeUniqueLinkKeyFunction_def Let_def)
  moreover have "key (fst (makeUniqueKeyFunction m d)) = Some (snd (makeUniqueKeyFunction m d))"
    by (simp add: makeUniqueKeyFunction_def Let_def)
  moreover
  have "key (fst (makeUniqueLinkKeyFunction m d)) = Some (snd (makeUniqueLinkKeyFunction m d))"
    by (simp add: makeUniqueLinkKeyFunction_def Let_def)
  ultimately show ?thesis
    using node link by blast
qed

theorem key_functions_write_back_witness:
  "(key (objectWithKey 5) = Some 5 \<and> (5::int) \<noteq> 0
     \<and> findNodeDataForKey
          \<lparr>nodeDataArray = [objectWithKey 1, objectWithKey 2],
           linkDataArray = [objectWithKey (- 1)]\<rparr> 5 = None
     \<and> findLinkDataForKey
          \<lparr>nodeDataArray = [objectWithKey 1, objectWithKey 2],
           linkDataArray = [objectWithKey (- 1)]\<rparr> 5 = None)
   \<and> makeUniqueKeyFunction
        \<lparr>nodeDataArray = [objectWithKey 1, objectWithKey 2],
         linkDataArray = [objectWithKey (- 1)]\<rparr> (objectWithKey 5) = (objectWithKey 5, 5)
   \<and> makeUniqueLinkKeyFunction
        \<lparr>nodeDataArray = [objectWithKey 1, objectWithKey 2],
         linkDataArray = [objectWithKey (- 1)]\<rparr> (objectWithKey 5) = (objectWithKey 5, 5)"
proof -
  have h: "key (objectWithKey 5) = Some 5 \<and> (5::int) \<noteq> 0
     \<and> findNodeDataForKey
          \<lparr>nodeDataArray = [objectWithKey 1, objectWithKey 2],
           linkDataArray = [objectWithKey (- 1)]\<rparr> 5 = None
     \<and> findLinkDataForKey
          \<lparr>nodeDataArray = [objectWithKey 1, objectWithKey 2],
           linkDataArray = [objectWithKey (- 1)]\<rparr> 5 = None"
    by (simp add: objectWithKey_def emptyObject_def findNodeDataForKey_def findLinkDataForKey_def)
  with key_functions_write_back
         [of "\<lparr>nodeDataArray = [objectWithKey 1, objectWithKey 2],
               linkDataArray = [objectWithKey (- 1)]\<rparr>" "objectWithKey 5" 5]
  show ?thesis
    by blast
qed

section \<open>The key discipline of reachable models\<close>

lemma addNodeData_arrays:
  "needsNodeKey m d \<Longrightarrow>
     nodeDataArray (addNodeData m d)
       = nodeDataArray m @ [d\<lparr>key := Some (makeUniqueKey_loop m (key_or (key d) 1))\<rparr>]
     \<and> linkDataArray (addNodeData m d) = linkDataArray m"
  by (simp add: addNodeData_def makeUniqueKeyFunction_def Let_def)

lemma addLinkData_arrays:
  "needsLinkKey m d \<Longrightarrow>
     linkDataArray (addLinkData m d)
       = linkDataArray m @ [d\<lparr>key := Some (makeUniqueLinkKey_loop m (key_or (key d) (- 1)))\<rparr>]
     \<and> nodeDataArray (addLinkData m d) = nodeDataArray m"
  by (simp add: addLinkData_def makeUniqueLinkKeyFunction_def Let_def)

lemma nodeKeysPositive_iff:
  "nodeKeysPositive m \<longleftrightarrow> (\<forall>n \<in> set (nodeDataArray m). \<exists>k. key n = Some k \<and> 0 < k)"
  by (auto simp: nodeKeysPositive_def list_all_iff split: option.splits)

lemma linkKeysNegative_iff:
  "linkKeysNegative m \<longleftrightarrow> (\<forall>l \<in> set (linkDataArray m). \<exists>k. key l = Some k \<and> k < 0)"
  by (auto simp: linkKeysNegative_def list_all_iff split: option.splits)

lemma new_node_key_positive:
  assumes "nodeKeysPositive m" and "needsNodeKey m d"
  shows "0 < makeUniqueKey_loop m (key_or (key d) 1)"
proof -
  have "0 < key_or (key d) 1"
  proof (cases "key d")
    case None
    then show ?thesis by (simp add: key_or_def)
  next
    case (Some k)
    with assms(2) obtain n where "n \<in> set (nodeDataArray m)" "key n = Some k"
      by (auto simp: needsNodeKey_def findNodeDataForKey_None_iff)
    with assms(1) have "0 < k"
      by (auto simp: nodeKeysPositive_iff)
    with Some show ?thesis by (simp add: key_or_def)
  qed
  with makeUniqueKey_loop_ge [of "key_or (key d) 1" m] show ?thesis
    by linarith
qed

lemma new_link_key_negative:
  assumes "linkKeysNegative m" and "needsLinkKey m d"
  shows "makeUniqueLinkKey_loop m (key_or (key d) (- 1)) < 0"
proof -
  have "key_or (key d) (- 1) < 0"
  proof (cases "key d")
    case None
    then show ?thesis by (simp add: key_or_def)
  next
    case (Some k)
    with assms(2) obtain l where "l \<in> set (linkDataArray m)" "key l = Some k"
      by (auto simp: needsLinkKey_def findLinkDataForKey_None_iff)
    with assms(1) have "k < 0"
      by (auto simp: linkKeysNegative_iff)
    with Some show ?thesis by (simp add: key_or_def)
  qed
  with makeUniqueLinkKey_loop_le [of m "key_or (key d) (- 1)"] show ?thesis
    by linarith
qed

lemma reachable_discipline: "reachable m \<Longrightarrow> nodeKeysPositive m \<and> linkKeysNegative m"
proof (induction rule: reachable.induct)
  case reachable_empty
  show ?case
    by (simp add: nodeKeysPositive_def linkKeysNegative_def emptyModel_def)
next
  case (reachable_addNode m d)
  then have "0 < makeUniqueKey_loop m (key_or (key d) 1)"
    by (simp add: new_node_key_positive)
  with reachable_addNode show ?case
    by (simp add: nodeKeysPositive_def linkKeysNegative_def addNodeData_arrays)
next
  case (reachable_addLink m d)
  then have "makeUniqueLinkKey_loop m (key_or (key d) (- 1)) < 0"
    by (simp add: new_link_key_negative)
  with reachable_addLink show ?case
    by (simp add: nodeKeysPositive_def linkKeysNegative_def addLinkData_arrays)
next
  case (reachable_removeNode m d)
  then show ?case
    by (auto simp: nodeKeysPositive_def linkKeysNegative_def removeNodeData_def list_all_iff
             dest: notin_set_remove1)
next
  case (reachable_removeLink m d)
  then show ?case
    by (auto simp: nodeKeysPositive_def linkKeysNegative_def removeLinkData_def list_all_iff
             dest: notin_set_remove1)
qed

text \<open>
  C3. In every model reachable from the empty model by insertions whose key comes from
  the key functions (and by removals), every node key is a positive integer and every
  link key a negative one; so no integer is both a node key and a link key, and the sign
  of a key in use tells which kind of data it names.
\<close>

theorem reachable_keys_disjoint:
  assumes "reachable m"
  shows "(\<forall>n \<in> set (nodeDataArray m). \<exists>k. key n = Some k \<and> 0 < k)
    \<and> (\<forall>l \<in> set (linkDataArray m). \<exists>k. key l = Some k \<and> k < 0)
    \<and> (\<forall>k. findNodeDataForKey m k = None \<or> findLinkDataForKey m k = None)
    \<and> (\<forall>k. findNodeDataForKey m k \<noteq> None \<longrightarrow> 0 < k)
    \<and> (\<forall>k. findLinkDataForKey m k \<noteq> None \<longrightarrow> k < 0)"
proof -
  from assms have pos: "\<forall>n \<in> set (nodeDataArray m). \<exists>k. key n = Some k \<and> 0 < k"
    and neg: "\<forall>l \<in> set (linkDataArray m). \<exists>k. key l = Some k \<and> k < 0"
    using reachable_discipline [of m]
    by (simp_all add: nodeKeysPositive_iff linkKeysNegative_iff)
  have node: "0 < k" if "findNodeDataForKey m k \<noteq> None" for k
    using that pos by (auto simp: findNodeDataForKey_None_iff)
  have link: "k < 0" if "findLinkDataForKey m k \<noteq> None" for k
    using that neg by (auto simp: findLinkDataForKey_None_iff)
  have "findNodeDataForKey m k = None \<or> findLinkDataForKey m k = None" for k
    using node [of k] link [of k] by fastforce
  with pos neg node link show ?thesis
    by blast
qed


theorem reachable_keys_disjoint_witness:
  "reachable (addLinkData (addNodeData emptyModel emptyObject) emptyObject)
   \<and> nodeDataArray (addLinkData (addNodeData emptyModel emptyObject) emptyObject)
       = [objectWithKey 1]
   \<and> linkDataArray (addLinkData (addNodeData emptyModel emptyObject) emptyObject)
       = [objectWithKey (- 1)]
   \<and> (\<forall>k. findNodeDataForKey (addLinkData (addNodeData emptyModel emptyObject) emptyObject) k
            = None
          \<or> findLinkDataForKey (addLinkData (addNodeData emptyModel emptyObject) emptyObject) k
            = None)"
proof -
  have n: "needsNodeKey emptyModel emptyObject"
    by (simp add: needsNodeKey_def emptyObject_def)
  have l: "needsLinkKey (addNodeData emptyModel emptyObject) emptyObject"
    by (simp add: needsLinkKey_def emptyObject_def)
  have r: "reachable (addLinkData (addNodeData emptyModel emptyObject) emptyObject)"
    by (rule reachable_addLink [OF reachable_addNode [OF reachable_empty n] l])
  have nodes: "nodeDataArray (addLinkData (addNodeData emptyModel emptyObject) emptyObject)
      = [objectWithKey 1]"
    using n l
    by (simp add: addLinkData_arrays addNodeData_arrays emptyModel_def emptyObject_def
        objectWithKey_def key_or_def makeUniqueKey_loop_stop findNodeDataForKey_def)
  have links: "linkDataArray (addLinkData (addNodeData emptyModel emptyObject) emptyObject)
      = [objectWithKey (- 1)]"
    using n l
    by (simp add: addLinkData_arrays addNodeData_arrays emptyModel_def emptyObject_def
        objectWithKey_def key_or_def makeUniqueLinkKey_loop_stop findLinkDataForKey_def)
  from reachable_keys_disjoint [OF r]
  have "\<forall>k. findNodeDataForKey (addLinkData (addNodeData emptyModel emptyObject) emptyObject) k
            = None
          \<or> findLinkDataForKey (addLinkData (addNodeData emptyModel emptyObject) emptyObject) k
            = None"
    by (rule conjunct1 [OF conjunct2 [OF conjunct2]])
  with r nodes links show ?thesis
    by (intro conjI)
qed

text \<open>
  C7. From the empty model, two insertions of node data without a key give the keys 1 and
  then 2; once the node with key 1 is deleted, the next insertion without a key gives
  key 1 again.
\<close>

theorem freed_node_key_is_reused:
  "nodeDataArray (addNodeData emptyModel (a\<lparr>key := None\<rparr>)) = [a\<lparr>key := Some 1\<rparr>]
   \<and> nodeDataArray (addNodeData (addNodeData emptyModel (a\<lparr>key := None\<rparr>)) (b\<lparr>key := None\<rparr>))
       = [a\<lparr>key := Some 1\<rparr>, b\<lparr>key := Some 2\<rparr>]
   \<and> nodeDataArray
        (removeNodeWithKey
          (addNodeData (addNodeData emptyModel (a\<lparr>key := None\<rparr>)) (b\<lparr>key := None\<rparr>)) 1)
       = [b\<lparr>key := Some 2\<rparr>]
   \<and> nodeDataArray
        (addNodeData
          (removeNodeWithKey
            (addNodeData (addNodeData emptyModel (a\<lparr>key := None\<rparr>)) (b\<lparr>key := None\<rparr>)) 1)
          (c\<lparr>key := None\<rparr>))
       = [b\<lparr>key := Some 2\<rparr>, c\<lparr>key := Some 1\<rparr>]"
proof -
  have m1: "addNodeData emptyModel (a\<lparr>key := None\<rparr>)
      = \<lparr>nodeDataArray = [a\<lparr>key := Some 1\<rparr>], linkDataArray = []\<rparr>"
    by (simp add: addNodeData_def needsNodeKey_def makeUniqueKeyFunction_def Let_def
        key_or_def emptyModel_def findNodeDataForKey_def makeUniqueKey_loop.simps)
  have m2: "addNodeData \<lparr>nodeDataArray = [a\<lparr>key := Some 1\<rparr>], linkDataArray = []\<rparr>
        (b\<lparr>key := None\<rparr>)
      = \<lparr>nodeDataArray = [a\<lparr>key := Some 1\<rparr>, b\<lparr>key := Some 2\<rparr>], linkDataArray = []\<rparr>"
    by (simp add: addNodeData_def needsNodeKey_def makeUniqueKeyFunction_def Let_def
        key_or_def findNodeDataForKey_def makeUniqueKey_loop.simps)
  have m3: "removeNodeWithKey
        \<lparr>nodeDataArray = [a\<lparr>key := Some 1\<rparr>, b\<lparr>key := Some 2\<rparr>], linkDataArray = []\<rparr> 1
      = \<lparr>nodeDataArray = [b\<lparr>key := Some 2\<rparr>], linkDataArray = []\<rparr>"
    by (simp add: removeNodeWithKey_def removeNodeData_def findNodeDataForKey_def)
  have m4: "addNodeData \<lparr>nodeDataArray = [b\<lparr>key := Some 2\<rparr>], linkDataArray = []\<rparr>
        (c\<lparr>key := None\<rparr>)
      = \<lparr>nodeDataArray = [b\<lparr>key := Some 2\<rparr>, c\<lparr>key := Some 1\<rparr>], linkDataArray = []\<rparr>"
    by (simp add: addNodeData_def needsNodeKey_def makeUniqueKeyFunction_def Let_def
        key_or_def findNodeDataForKey_def makeUniqueKey_loop.simps)
  show ?thesis
    by (simp add: m1 m2 m3 m4)
qed

section \<open>Claims about drop handling\<close>

lemma handleDrop_Some:
  "handleDrop (Some dg) ev =
     Some (dg\<lparr>model := (model dg)
       \<lparr>nodeDataArray := nodeDataArray (model dg) @
          [\<lparr>key = Some (makeUniqueKey_loop (model dg) 1),
            location = Some (transformViewToDoc dg (Point 70 70)),
            text = Some (determineNodeText
              (case dataTransfer ev of None \<Rightarrow> [] | Some dt \<Rightarrow> getData dt ''text/plain'')),
            category = Some (DropType_value (determineNodeType
              (case dataTransfer ev of None \<Rightarrow> [] | Some dt \<Rightarrow> getData dt ''text/plain'')))\<rparr>]\<rparr>\<rparr>)"
  by (simp add: handleDrop_def addNodeData_def needsNodeKey_def makeUniqueKeyFunction_def
      Let_def key_or_def)

lemma handleDrop_None: "handleDrop None ev = None"
  by (simp add: handleDrop_def Let_def)

text \<open>The handler never reads the pointer position of the event.\<close>

lemma handleDrop_pointer_independent:
  "handleDrop dg (ev\<lparr>clientX := cx, clientY := cy\<rparr>) = handleDrop dg ev"
  by (simp add: handleDrop_def)



text \<open>The three named texts, dropped on an empty diagram: the node each one inserts.\<close>

lemma handleDrop_area_tools_happen:
  "handleDrop (Some \<lparr>model = emptyModel, transformViewToDoc = (\<lambda>p. p)\<rparr>)
       \<lparr>dataTransfer = Some [(''text/plain'', ''tools'')], clientX = 0, clientY = 0\<rparr>
     = Some \<lparr>model = \<lparr>nodeDataArray =
                [\<lparr>key = Some 1, location = Some (Point 70 70),
                  text = Some ''Start'', category = Some ''Start''\<rparr>],
              linkDataArray = []\<rparr>,
            transformViewToDoc = (\<lambda>p. p)\<rparr>
   \<and> handleDrop (Some \<lparr>model = emptyModel, transformViewToDoc = (\<lambda>p. p)\<rparr>)
       \<lparr>dataTransfer = Some [(''text/plain'', ''happen'')], clientX = 0, clientY = 0\<rparr>
     = Some \<lparr>model = \<lparr>nodeDataArray =
                [\<lparr>key = Some 1, location = Some (Point 70 70),
                  text = Some ''End'', category = Some ''End''\<rparr>],
              linkDataArray = []\<rparr>,
            transformViewToDoc = (\<lambda>p. p)\<rparr>"
  by (simp add: handleDrop_Some getData_def determineNodeType_def determineNodeText_def
      emptyModel_def findNodeDataForKey_def makeUniqueKey_loop.simps)

text \<open>
  C8. When the event has no \<^verbatim>\<open>dataTransfer\<close>, or no data of format "text/plain", or
  empty data of that format, the handler takes the text to be the empty string and
  inserts a node of category Screen with the label "Display Screen" (with a fresh key).
  The handler has no failing path; without a diagram it does nothing.
\<close>

theorem handleDrop_empty_payload:
  assumes "dataTransfer ev = None
    \<or> (\<exists>dt. dataTransfer ev = Some dt
          \<and> (map_of dt ''text/plain'' = None \<or> map_of dt ''text/plain'' = Some []))"
  shows "handleDrop (Some dg) ev =
      Some (dg\<lparr>model := (model dg)
        \<lparr>nodeDataArray := nodeDataArray (model dg) @
           [\<lparr>key = Some (snd (makeUniqueKeyFunction (model dg) emptyObject)),
             location = Some (transformViewToDoc dg (Point 70 70)),
             text = Some ''Display Screen'',
             category = Some ''Screen''\<rparr>]\<rparr>\<rparr>)
    \<and> handleDrop None ev = None"
proof -
  from assms
  have payload: "(case dataTransfer ev of None \<Rightarrow> [] | Some dt \<Rightarrow> getData dt ''text/plain'') = []"
    by (auto simp: getData_def)
  have k: "snd (makeUniqueKeyFunction (model dg) emptyObject) = makeUniqueKey_loop (model dg) 1"
    by (simp add: makeUniqueKeyFunction_def Let_def key_or_def emptyObject_def)
  show ?thesis
    unfolding handleDrop_Some handleDrop_None payload k
    by (simp add: determineNodeType_def determineNodeText_def)
qed

theorem handleDrop_empty_payload_witness:
  "dataTransfer \<lparr>dataTransfer = Some [(''text/uri-list'', ''x'')], clientX = 10, clientY = 20\<rparr>
     = Some [(''text/uri-list'', ''x'')]
   \<and> map_of [(''text/uri-list'', ''x'')] ''text/plain'' = None
   \<and> handleDrop (Some \<lparr>model = emptyModel, transformViewToDoc = (\<lambda>p. p)\<rparr>)
       \<lparr>dataTransfer = Some [(''text/uri-list'', ''x'')], clientX = 10, clientY = 20\<rparr>
     = Some \<lparr>model = \<lparr>nodeDataArray =
                [\<lparr>key = Some 1, location = Some (Point 70 70),
                  text = Some ''Display Screen'', category = Some ''Screen''\<rparr>],
              linkDataArray = []\<rparr>,
            transformViewToDoc = (\<lambda>p. p)\<rparr>"
proof -
  have h: "dataTransfer \<lparr>dataTransfer = Some [(''text/uri-list'', ''x'')],
                        clientX = 10, clientY = 20\<rparr> = None
    \<or> (\<exists>dt. dataTransfer \<lparr>dataTransfer = Some [(''text/uri-list'', ''x'')],
                          clientX = 10, clientY = 20\<rparr> = Some dt
          \<and> (map_of dt ''text/plain'' = None \<or> map_of dt ''text/plain'' = Some []))"
    by simp
  have k: "snd (makeUniqueKeyFunction \<lparr>nodeDataArray = [], linkDataArray = []\<rparr> emptyObject) = 1"
    by (simp add: makeUniqueKeyFunction_def Let_def key_or_def emptyObject_def
        findNodeDataForKey_def makeUniqueKey_loop.simps)
  from handleDrop_empty_payload
         [OF h, of "\<lparr>model = emptyModel, transformViewToDoc = (\<lambda>p. p)\<rparr>"]
  show ?thesis
    by (simp add: emptyModel_def k)
qed

text \<open>
  C5. The handler of the current component does not place the node at the pointer: a
  drop at the client coordinates (300, 200), under the identity view transform, inserts
  the node at (70, 70).
\<close>

theorem handleDrop_location_is_fixed:
  "handleDrop (Some \<lparr>model = emptyModel, transformViewToDoc = (\<lambda>p. p)\<rparr>)
       \<lparr>dataTransfer = Some [(''text/plain'', ''area'')], clientX = 300, clientY = 200\<rparr>
     = Some \<lparr>model = \<lparr>nodeDataArray =
                [\<lparr>key = Some 1, location = Some (Point 70 70),
                  text = Some ''Branching'', category = Some ''Branching''\<rparr>],
              linkDataArray = []\<rparr>,
            transformViewToDoc = (\<lambda>p. p)\<rparr>"
  by (simp add: handleDrop_Some getData_def determineNodeType_def determineNodeText_def
      emptyModel_def findNodeDataForKey_def makeUniqueKey_loop.simps)


section \<open>Claims about ports and link labels\<close>

text \<open>
  C9. Every port of the Start template allows links out of it and none into it, and every
  port of the End template allows links into it and none out of it. This holds for the
  templates of \<^verbatim>\<open>initDiagram\<close> and for those of \<^verbatim>\<open>initGoDiagram\<close>; the Start
  ports are L, R, B and the End ports are L, R, T.
\<close>

theorem start_end_port_flags:
  "(\<forall>p \<in> set (templatePorts initDiagram_nodeTemplateMap (DropType_value Start)).
       fromLinkable p \<and> \<not> toLinkable p)
   \<and> (\<forall>p \<in> set (templatePorts initDiagram_nodeTemplateMap (DropType_value End)).
       \<not> fromLinkable p \<and> toLinkable p)
   \<and> map portId (templatePorts initDiagram_nodeTemplateMap (DropType_value Start))
       = [''L'', ''R'', ''B'']
   \<and> map portId (templatePorts initDiagram_nodeTemplateMap (DropType_value End))
       = [''L'', ''R'', ''T'']
   \<and> (\<forall>p \<in> set (templatePorts initGoDiagram_nodeTemplateMap ''Start'').
       fromLinkable p \<and> \<not> toLinkable p)
   \<and> (\<forall>p \<in> set (templatePorts initGoDiagram_nodeTemplateMap ''End'').
       \<not> fromLinkable p \<and> toLinkable p)
   \<and> map portId (templatePorts initGoDiagram_nodeTemplateMap ''Start'') = [''L'', ''R'', ''B'']
   \<and> map portId (templatePorts initGoDiagram_nodeTemplateMap ''End'') = [''T'', ''L'', ''R'']"
proof -
  have a: "templatePorts initDiagram_nodeTemplateMap (DropType_value Start) =
      [makePort ''L'' Spot_Left Spot_Left True False,
       makePort ''R'' Spot_Right Spot_Right True False,
       makePort ''B'' Spot_Bottom Spot_Bottom True False]"
    by (simp add: templatePorts_def initDiagram_nodeTemplateMap_def)
  have b: "templatePorts initDiagram_nodeTemplateMap (DropType_value End) =
      [makePort ''L'' Spot_Left Spot_Left False True,
       makePort ''R'' Spot_Right Spot_Right False True,
       makePort ''T'' Spot_Top Spot_Top False True]"
    by (simp add: templatePorts_def initDiagram_nodeTemplateMap_def)
  have c: "templatePorts initGoDiagram_nodeTemplateMap ''Start'' =
      [makePort ''L'' Spot_Left Spot_Left True False,
       makePort ''R'' Spot_Right Spot_Right True False,
       makePort ''B'' Spot_Bottom Spot_Bottom True False]"
    by (simp add: templatePorts_def initGoDiagram_nodeTemplateMap_def)
  have d: "templatePorts initGoDiagram_nodeTemplateMap ''End'' =
      [makePort ''T'' Spot_Top Spot_Top False True,
       makePort ''L'' Spot_Left Spot_Left False True,
       makePort ''R'' Spot_Right Spot_Right False True]"
    by (simp add: templatePorts_def initGoDiagram_nodeTemplateMap_def)
  show ?thesis
    unfolding a b c d by (simp add: makePort_def)
qed

theorem start_end_port_flags_witness:
  "makePort ''B'' Spot_Bottom Spot_Bottom True False
     \<in> set (templatePorts initDiagram_nodeTemplateMap (DropType_value Start))
   \<and> fromLinkable (makePort ''B'' Spot_Bottom Spot_Bottom True False)
   \<and> \<not> toLinkable (makePort ''B'' Spot_Bottom Spot_Bottom True False)
   \<and> makePort ''T'' Spot_Top Spot_Top False True
     \<in> set (templatePorts initDiagram_nodeTemplateMap (DropType_value End))
   \<and> \<not> fromLinkable (makePort ''T'' Spot_Top Spot_Top False True)
   \<and> toLinkable (makePort ''T'' Spot_Top Spot_Top False True)"
proof -
  have s: "makePort ''B'' Spot_Bottom Spot_Bottom True False
     \<in> set (templatePorts initDiagram_nodeTemplateMap (DropType_value Start))"
    by (simp add: templatePorts_def initDiagram_nodeTemplateMap_def)
  have e: "makePort ''T'' Spot_Top Spot_Top False True
     \<in> set (templatePorts initDiagram_nodeTemplateMap (DropType_value End))"
    by (simp add: templatePorts_def initDiagram_nodeTemplateMap_def)
  from s e start_end_port_flags show ?thesis
    by blast
qed

lemma raiseDiagramEvent_link:
  "n = ''LinkDrawn'' \<or> n = ''LinkRelinked'' \<Longrightarrow> raiseDiagramEvent n e = showLinkLabel e"
  by (auto simp: raiseDiagramEvent_def initGoDiagram_listener_def)

text \<open>A link that has no object named LABEL is left as it is.\<close>

lemma showLinkLabel_no_label:
  "findObject (subject e) ''LABEL'' = None \<Longrightarrow> showLinkLabel e = e"
  by (simp add: showLinkLabel_def)

text \<open>
  C6, as the code has it. On a link-drawn or link-relinked event, for a link that has a
  label panel, the panel is made visible if and only if the category of the link's
  source node is "Conditional", and hidden for every other category ("Branching"
  included), whatever its visibility was before; the source node is the one the link has
  at the event, so also the new one after a relink.
\<close>

theorem showLinkLabel_visible_iff_Conditional:
  assumes "n = ''LinkDrawn'' \<or> n = ''LinkRelinked''"
    and "findObject (subject e) ''LABEL'' = Some label"
  shows "findObject (subject (raiseDiagramEvent n e)) ''LABEL''
      = Some (label\<lparr>visible := (category (data (fromNode (subject e))) = Some ''Conditional'')\<rparr>)
    \<and> (\<exists>label'. findObject (subject (raiseDiagramEvent n e)) ''LABEL'' = Some label'
          \<and> (visible label' \<longleftrightarrow> category (data (fromNode (subject e))) = Some ''Conditional''))
    \<and> fromNode (subject (raiseDiagramEvent n e)) = fromNode (subject e)"
proof -
  from assms(1) have "raiseDiagramEvent n e = showLinkLabel e"
    by (rule raiseDiagramEvent_link)
  with assms(2) show ?thesis
    by (simp add: showLinkLabel_def)
qed

theorem showLinkLabel_visible_iff_Conditional_witness:
  "(''LinkRelinked'' = ''LinkDrawn'' \<or> ''LinkRelinked'' = ''LinkRelinked'')
   \<and> findObject (subject (linkEventFrom ''Conditional'')) ''LABEL''
       = Some \<lparr>name = ''LABEL'', visible = False\<rparr>
   \<and> findObject (subject (raiseDiagramEvent ''LinkRelinked'' (linkEventFrom ''Conditional'')))
        ''LABEL''
       = Some \<lparr>name = ''LABEL'', visible = True\<rparr>"
proof -
  have n: "''LinkRelinked'' = ''LinkDrawn'' \<or> ''LinkRelinked'' = ''LinkRelinked''"
    by simp
  have l: "findObject (subject (linkEventFrom ''Conditional'')) ''LABEL''
       = Some \<lparr>name = ''LABEL'', visible = False\<rparr>"
    by (simp add: linkEventFrom_def initGoDiagram_linkTemplate_def)
  have c: "category (data (fromNode (subject (linkEventFrom ''Conditional''))))
       = Some ''Conditional''"
    by (simp add: linkEventFrom_def)
  from showLinkLabel_visible_iff_Conditional [OF n l]
  have "findObject (subject (raiseDiagramEvent ''LinkRelinked'' (linkEventFrom ''Conditional'')))
        ''LABEL''
       = Some \<lparr>name = ''LABEL'', visible = True\<rparr>"
    unfolding c by simp
  with n l show ?thesis
    by (intro conjI)
qed

text \<open>
  C6, as the claim has it, fails for the category "Branching": a link drawn from a node
  of that category has its label panel hidden.
\<close>

theorem showLinkLabel_Branching_counterexample:
  "category (data (fromNode (subject (linkEventFrom ''Branching'')))) = Some ''Branching''
   \<and> map_option visible
        (findObject (subject (raiseDiagramEvent ''LinkDrawn'' (linkEventFrom ''Branching'')))
           ''LABEL'')
       = Some False"
  by (simp add: raiseDiagramEvent_def initGoDiagram_listener_def showLinkLabel_def
      linkEventFrom_def initGoDiagram_linkTemplate_def)

end
